theory Spec2Isabelle
  imports Complex_Main
begin

section \<open>Floating-point values of numpy and Python\<close>

text \<open>
  The program computes on float64 values (pandas columns, numpy scalars, Python floats).
  The model keeps the special values that steer the control flow of the program (the two
  infinities and NaN) and abstracts rounding and the sign of zero: a finite value is a
  real number. Every comparison with NaN is false, as in IEEE 754.
\<close>

datatype npfloat = Fin real | PInf | NInf | NaN

fun fneg :: "npfloat \<Rightarrow> npfloat" where
  "fneg (Fin x) = Fin (- x)"
| "fneg PInf = NInf"
| "fneg NInf = PInf"
| "fneg NaN = NaN"

fun fabs :: "npfloat \<Rightarrow> npfloat" where
  "fabs (Fin x) = Fin \<bar>x\<bar>"
| "fabs PInf = PInf"
| "fabs NInf = PInf"
| "fabs NaN = NaN"

fun fadd :: "npfloat \<Rightarrow> npfloat \<Rightarrow> npfloat" where
  "fadd (Fin x) (Fin y) = Fin (x + y)"
| "fadd NaN _ = NaN"
| "fadd _ NaN = NaN"
| "fadd PInf NInf = NaN"
| "fadd NInf PInf = NaN"
| "fadd PInf _ = PInf"
| "fadd NInf _ = NInf"
| "fadd _ PInf = PInf"
| "fadd _ NInf = NInf"

definition fsub :: "npfloat \<Rightarrow> npfloat \<Rightarrow> npfloat" where
  "fsub a b = fadd a (fneg b)"

fun fmul :: "npfloat \<Rightarrow> npfloat \<Rightarrow> npfloat" where
  "fmul (Fin x) (Fin y) = Fin (x * y)"
| "fmul NaN _ = NaN"
| "fmul _ NaN = NaN"
| "fmul (Fin x) PInf = (if x = 0 then NaN else if 0 < x then PInf else NInf)"
| "fmul (Fin x) NInf = (if x = 0 then NaN else if 0 < x then NInf else PInf)"
| "fmul PInf (Fin y) = (if y = 0 then NaN else if 0 < y then PInf else NInf)"
| "fmul NInf (Fin y) = (if y = 0 then NaN else if 0 < y then NInf else PInf)"
| "fmul PInf PInf = PInf"
| "fmul NInf NInf = PInf"
| "fmul PInf NInf = NInf"
| "fmul NInf PInf = NInf"

text \<open>
  Division as numpy and pandas do it: no exception; a non-zero value over zero is an
  infinity and zero over zero is NaN.
\<close>

fun fdiv :: "npfloat \<Rightarrow> npfloat \<Rightarrow> npfloat" where
  "fdiv (Fin x) (Fin y) =
     (if y \<noteq> 0 then Fin (x / y)
      else if 0 < x then PInf else if x < 0 then NInf else NaN)"
| "fdiv NaN _ = NaN"
| "fdiv _ NaN = NaN"
| "fdiv (Fin x) PInf = Fin 0"
| "fdiv (Fin x) NInf = Fin 0"
| "fdiv PInf (Fin y) = (if 0 \<le> y then PInf else NInf)"
| "fdiv NInf (Fin y) = (if 0 \<le> y then NInf else PInf)"
| "fdiv PInf _ = NaN"
| "fdiv NInf _ = NaN"

fun flt :: "npfloat \<Rightarrow> npfloat \<Rightarrow> bool" where
  "flt (Fin x) (Fin y) = (x < y)"
| "flt NaN _ = False"
| "flt _ NaN = False"
| "flt NInf NInf = False"
| "flt NInf _ = True"
| "flt _ NInf = False"
| "flt PInf _ = False"
| "flt _ PInf = True"

fun fle :: "npfloat \<Rightarrow> npfloat \<Rightarrow> bool" where
  "fle (Fin x) (Fin y) = (x \<le> y)"
| "fle NaN _ = False"
| "fle _ NaN = False"
| "fle NInf _ = True"
| "fle _ PInf = True"
| "fle PInf _ = False"
| "fle _ NInf = False"

definition fgt :: "npfloat \<Rightarrow> npfloat \<Rightarrow> bool" where
  "fgt a b = flt b a"

definition fge :: "npfloat \<Rightarrow> npfloat \<Rightarrow> bool" where
  "fge a b = fle b a"

section \<open>Price series\<close>

text \<open>
  The data frame: one row per trading day, the index label of the row and its four price
  columns. Row order is the order of the frame; nothing in the type makes the labels
  ascending or distinct, and nothing makes the prices positive.
\<close>

type_synonym date = int

record bar =
  Date :: date
  Open :: real
  High :: real
  Low :: real
  Close :: real

type_synonym frame = "bar list"

definition index :: "frame \<Rightarrow> date list" where
  "index data = map Date data"

definition column :: "(bar \<Rightarrow> real) \<Rightarrow> frame \<Rightarrow> npfloat list" where
  "column c data = map (\<lambda>b. Fin (c b)) data"

section \<open>Indicator library\<close>

text \<open>\<^verbatim>\<open>series.diff()\<close>: NaN at the first position, then the difference to the previous value.\<close>

fun diff_from :: "npfloat \<Rightarrow> npfloat list \<Rightarrow> npfloat list" where
  "diff_from prev [] = []"
| "diff_from prev (x # xs) = fsub x prev # diff_from x xs"

definition diff :: "npfloat list \<Rightarrow> npfloat list" where
  "diff series = diff_from NaN series"

text \<open>\<^verbatim>\<open>s.where(cond, 0)\<close>: the value where the condition holds, 0 elsewhere (also at NaN,
  where every comparison is false).\<close>

definition where_else0 :: "(npfloat \<Rightarrow> bool) \<Rightarrow> npfloat list \<Rightarrow> npfloat list" where
  "where_else0 cond s = map (\<lambda>d. if cond d then d else Fin 0) s"

text \<open>
  \<^verbatim>\<open>s.rolling(window=w).mean()\<close> with pandas' default \<^verbatim>\<open>min_periods = w\<close>: at position
  \<open>k\<close> the window holds the values at positions \<open>k + 1 - w, ..., k\<close> that exist; the
  observations are its finite values (pandas turns the infinities into NaN before it
  computes, and NaN is no observation); the mean is defined when there are at least
  \<open>w\<close> observations and at least one, and is NaN otherwise.
\<close>

fun is_finite :: "npfloat \<Rightarrow> bool" where
  "is_finite (Fin x) = True"
| "is_finite v = False"

definition window_at :: "nat \<Rightarrow> 'a list \<Rightarrow> nat \<Rightarrow> 'a list" where
  "window_at w s k = drop (Suc k - w) (take (Suc k) s)"

definition fsum :: "npfloat list \<Rightarrow> npfloat" where
  "fsum xs = foldr fadd xs (Fin 0)"

definition mean_at :: "nat \<Rightarrow> npfloat list \<Rightarrow> nat \<Rightarrow> npfloat" where
  "mean_at w s k =
     (let obs = filter is_finite (window_at w s k); nobs = length obs
      in if w \<le> nobs \<and> 0 < nobs then fdiv (fsum obs) (Fin (real nobs)) else NaN)"

definition rolling_mean :: "nat \<Rightarrow> npfloat list \<Rightarrow> npfloat list" where
  "rolling_mean w s = map (mean_at w s) [0..<length s]"

definition fillna0 :: "npfloat list \<Rightarrow> npfloat list" where
  "fillna0 s = map (\<lambda>v. if v = NaN then Fin 0 else v) s"

text \<open>The two rolling averages of \<^verbatim>\<open>compute_rsi\<close>, named as in the source.\<close>

definition gain :: "npfloat list \<Rightarrow> nat \<Rightarrow> npfloat list" where
  "gain series period =
     rolling_mean period (where_else0 (\<lambda>d. fgt d (Fin 0)) (diff series))"

definition loss :: "npfloat list \<Rightarrow> nat \<Rightarrow> npfloat list" where
  "loss series period =
     rolling_mean period (map fneg (where_else0 (\<lambda>d. flt d (Fin 0)) (diff series)))"

definition rsi_of_rs :: "npfloat \<Rightarrow> npfloat" where
  "rsi_of_rs rs = fsub (Fin 100) (fdiv (Fin 100) (fadd (Fin 1) rs))"

definition compute_rsi :: "npfloat list \<Rightarrow> nat \<Rightarrow> npfloat list" where
  "compute_rsi series period =
     (let rs = map2 fdiv (gain series period) (loss series period);
          rsi = map rsi_of_rs rs
      in fillna0 rsi)"


text \<open>
  Exceptions of the program. \<open>LinAlgError\<close> stands for whatever numpy's \<^verbatim>\<open>polyfit\<close>
  raises.
\<close>

datatype pyerror = ZeroDivisionError | ValueError | TypeError | KeyError | LinAlgError

text \<open>
  \<^verbatim>\<open>s.loc[d]\<close> selects the rows labelled \<open>d\<close>, at the positions where the index holds
  \<open>d\<close> (the values \<open>vals\<close> are as long as the index). With one such row \<^verbatim>\<open>s.loc[d].iloc[0]\<close> is a
  scalar. With several rows it is a row, a comparison on it is a Series, and the
  \<^verbatim>\<open>if\<close> or \<^verbatim>\<open>and\<close> that receives the Series raises ValueError (its truth value is
  ambiguous); the model raises it where the selection is made. A label that the index
  does not hold raises KeyError.
\<close>

definition positions :: "date list \<Rightarrow> date \<Rightarrow> nat list" where
  "positions idx d = filter (\<lambda>k. idx ! k = d) [0..<length idx]"

definition loc :: "date list \<Rightarrow> 'a list \<Rightarrow> date \<Rightarrow> 'a list" where
  "loc idx vals d = map (\<lambda>k. vals ! k) (positions idx d)"

definition scalar_at :: "date list \<Rightarrow> 'a list \<Rightarrow> date \<Rightarrow> pyerror + 'a" where
  "scalar_at idx vals d =
     (case loc idx vals d of [] \<Rightarrow> Inl KeyError | [v] \<Rightarrow> Inr v | _ \<Rightarrow> Inl ValueError)"

definition is_strong_flag :: "frame \<Rightarrow> date \<Rightarrow> pyerror + bool" where
  "is_strong_flag data flag_end_date =
     (let rsi = compute_rsi (column Close data) 14
      in if flag_end_date \<in> set (index data)
         then (case scalar_at (index data) rsi flag_end_date of
                 Inl e \<Rightarrow> Inl e
               | Inr v \<Rightarrow> Inr (fgt v (Fin 50)))
         else Inr False)"

definition is_above_ma50 :: "frame \<Rightarrow> date \<Rightarrow> pyerror + bool" where
  "is_above_ma50 data flag_end_date =
     (let ma50 = rolling_mean 50 (column Close data)
      in if flag_end_date \<in> set (index data)
         then (case scalar_at (index data) (column Close data) flag_end_date of
                 Inl e \<Rightarrow> Inl e
               | Inr c \<Rightarrow>
                   (case scalar_at (index data) ma50 flag_end_date of
                      Inl e \<Rightarrow> Inl e
                    | Inr m \<Rightarrow> Inr (fgt c m)))
         else Inr False)"

section \<open>Pattern scanner\<close>

datatype trend = bullish | bearish

record flag =
  date :: date
  pole_start :: date
  flag_end :: date
  pole_price_change :: npfloat
  consolidation_range :: npfloat
  trend_direction :: trend

text \<open>Division of Python floats: a zero divisor raises, everything else is IEEE division.\<close>

definition py_truediv :: "npfloat \<Rightarrow> npfloat \<Rightarrow> pyerror + npfloat" where
  "py_truediv a b = (if b = Fin 0 then Inl ZeroDivisionError else Inr (fdiv a b))"

text \<open>\<^verbatim>\<open>.max()\<close> and \<^verbatim>\<open>.min()\<close> of a column of a slice: NaN when the slice is empty.\<close>

fun col_max :: "real list \<Rightarrow> npfloat" where
  "col_max [] = NaN"
| "col_max (x # xs) = Fin (fold max xs x)"

fun col_min :: "real list \<Rightarrow> npfloat" where
  "col_min [] = NaN"
| "col_min (x # xs) = Fin (fold min xs x)"

text \<open>
  The body of the loop of \<^verbatim>\<open>detect_flag_patterns\<close> at scan index \<open>i\<close>: an exception, no
  pattern, or the dictionary appended to \<^verbatim>\<open>flags\<close>. numpy's \<^verbatim>\<open>polyfit\<close> is a library
  function; the scanner takes the leading coefficient of its degree-1 fit as the
  parameter \<open>polyfit1\<close>, a function of the Close values of the consolidation window
  (the abscissae are always \<^verbatim>\<open>range(len(...))\<close>). The reads \<open>data ! i\<close>,
  \<open>data ! (i - 10)\<close> and \<open>data ! (i + consolidation_days)\<close> are in range at every
  index the loop visits (lemma \<open>scan_range_in_bounds\<close>). The window length
  \<open>consolidation_days\<close> is a number of bars, a natural number; the two thresholds are
  finite.
\<close>

definition scan_step ::
  "(npfloat list \<Rightarrow> pyerror + npfloat) \<Rightarrow> frame \<Rightarrow> real \<Rightarrow> real \<Rightarrow> nat \<Rightarrow> nat
     \<Rightarrow> pyerror + flag option" where
  "scan_step polyfit1 data pole_threshold flag_threshold consolidation_days i =
     (let current_close = Fin (Close (data ! i));
          past_close = Fin (Close (data ! (i - 10)))
      in case py_truediv (fsub current_close past_close) past_close of
           Inl e \<Rightarrow> Inl e
         | Inr price_change \<Rightarrow>
             if fgt (fabs price_change) (Fin pole_threshold) then
               (let trend_dir = (if fgt price_change (Fin 0) then bullish else bearish);
                    consolidation_period = take consolidation_days (drop i data);
                    high_price = col_max (map High consolidation_period);
                    low_price = col_min (map Low consolidation_period)
                in case py_truediv (fsub high_price low_price) low_price of
                     Inl e \<Rightarrow> Inl e
                   | Inr price_range \<Rightarrow>
                       if flt price_range (Fin flag_threshold) then
                         (case polyfit1 (column Close consolidation_period) of
                            Inl e \<Rightarrow> Inl e
                          | Inr flag_slope \<Rightarrow>
                              (let flag_end_date = Date (data ! (i + consolidation_days));
                                   new_flag = \<lparr>date = Date (data ! i),
                                               pole_start = Date (data ! (i - 10)),
                                               flag_end = flag_end_date,
                                               pole_price_change = price_change,
                                               consolidation_range = price_range,
                                               trend_direction = trend_dir\<rparr>
                               in if trend_dir = bullish then
                                    (if fle flag_slope (Fin 0) then
                                       (case is_strong_flag data flag_end_date of
                                          Inl e \<Rightarrow> Inl e
                                        | Inr strong \<Rightarrow>
                                            if \<not> strong then Inr None
                                            else (case is_above_ma50 data flag_end_date of
                                                    Inl e \<Rightarrow> Inl e
                                                  | Inr above_ma \<Rightarrow>
                                                      if above_ma then Inr (Some new_flag)
                                                      else Inr None))
                                     else Inr None)
                                  else (if fgt flag_slope (Fin 0) then Inr (Some new_flag)
                                        else Inr None)))
                       else Inr None)
             else Inr None)"

text \<open>The loop, with the list \<^verbatim>\<open>flags\<close> as its state; an exception ends it.\<close>

fun scan ::
  "(npfloat list \<Rightarrow> pyerror + npfloat) \<Rightarrow> frame \<Rightarrow> real \<Rightarrow> real \<Rightarrow> nat \<Rightarrow> nat list
     \<Rightarrow> flag list \<Rightarrow> pyerror + flag list" where
  "scan polyfit1 data pt ft cd [] flags = Inr flags"
| "scan polyfit1 data pt ft cd (i # is) flags =
     (case scan_step polyfit1 data pt ft cd i of
        Inl e \<Rightarrow> Inl e
      | Inr None \<Rightarrow> scan polyfit1 data pt ft cd is flags
      | Inr (Some f) \<Rightarrow> scan polyfit1 data pt ft cd is (flags @ [f]))"

text \<open>\<^verbatim>\<open>range(10, len(data) - consolidation_days - 1)\<close>: empty when the bound is not above 10.\<close>

definition scan_range :: "frame \<Rightarrow> nat \<Rightarrow> nat list" where
  "scan_range data consolidation_days = [10..<length data - consolidation_days - 1]"

definition detect_flag_patterns ::
  "(npfloat list \<Rightarrow> pyerror + npfloat) \<Rightarrow> frame \<Rightarrow> real \<Rightarrow> real \<Rightarrow> nat
     \<Rightarrow> pyerror + flag list" where
  "detect_flag_patterns polyfit1 data pole_threshold flag_threshold consolidation_days =
     scan polyfit1 data pole_threshold flag_threshold consolidation_days
       (scan_range data consolidation_days) []"

text \<open>What the loop appends to \<^verbatim>\<open>flags\<close> at scan index \<open>i\<close>: one pattern or none.\<close>

definition emitted_at ::
  "(npfloat list \<Rightarrow> pyerror + npfloat) \<Rightarrow> frame \<Rightarrow> real \<Rightarrow> real \<Rightarrow> nat \<Rightarrow> nat \<Rightarrow> flag list" where
  "emitted_at polyfit1 data pt ft cd i =
     (case scan_step polyfit1 data pt ft cd i of Inr (Some f) \<Rightarrow> [f] | _ \<Rightarrow> [])"

text \<open>
  An instance of \<open>polyfit1\<close> for evaluation. On two or more points it is the slope of
  the least-squares line through the points \<open>(k, ys ! k)\<close> in exact arithmetic, which
  is what \<^verbatim>\<open>polyfit\<close> computes up to rounding. On fewer than two points the fit of
  degree 1 is not determined and \<^verbatim>\<open>polyfit\<close> raises.
\<close>

definition lsq_slope :: "npfloat list \<Rightarrow> pyerror + npfloat" where
  "lsq_slope ys =
     (if length ys < 2 then Inl LinAlgError
      else
        (let n = Fin (real (length ys));
             xs = map (\<lambda>k. Fin (real k)) [0..<length ys];
             sx = fsum xs;
             sy = fsum ys;
             sxy = fsum (map2 fmul xs ys);
             sxx = fsum (map2 fmul xs xs)
         in Inr (fdiv (fsub (fmul n sxy) (fmul sx sy)) (fsub (fmul n sxx) (fmul sx sx)))))"

section \<open>Outcome evaluator\<close>

text \<open>
  A row of the table \<^verbatim>\<open>pattern_details\<close>. The three dates are kept as dates (the source
  stores them formatted), the flag type as the direction (the source stores its
  capitalised name).
\<close>

record outcome =
  Pattern_Start_Date :: date
  Pole_End_Flag_Start_Date :: date
  Flag_End_Date :: date
  Flag_Type :: trend
  Price_Change_pct :: npfloat
  Success :: bool
  Days_After :: nat
  Threshold_pct :: real

text \<open>
  \<^verbatim>\<open>round(x, 2)\<close> in exact arithmetic: to the nearest hundredth, ties to the even one.
  Python rounds the float nearest to the value, so on a tie of the exact value, and
  where the product by 100 overflows, the field \<^verbatim>\<open>'Price Change (%)'\<close> of the program
  can differ from the one computed here; no statement below is about that field.
\<close>

definition rint :: "real \<Rightarrow> int" where
  "rint x =
     (let f = \<lfloor>x\<rfloor>; r = x - of_int f
      in if r < 1 / 2 then f else if 1 / 2 < r then f + 1 else if even f then f else f + 1)"

definition round2 :: "real \<Rightarrow> real" where
  "round2 x = of_int (rint (x * 100)) / 100"

fun fround2 :: "npfloat \<Rightarrow> npfloat" where
  "fround2 (Fin x) = Fin (round2 x)"
| "fround2 v = v"

text \<open>
  \<^verbatim>\<open>data.index.get_loc(d)\<close>: the position of the label when it occurs once. When it occurs
  several times the result is a slice if the index is ascending and a boolean mask if
  it is not; in the caller the addition \<^verbatim>\<open>flag_end_idx + days_after\<close> raises TypeError
  on the slice, and the test of the \<^verbatim>\<open>if\<close> raises ValueError on the mask. The model
  raises them at the lookup.
\<close>

definition get_loc :: "date list \<Rightarrow> date \<Rightarrow> pyerror + nat" where
  "get_loc idx d =
     (case positions idx d of
        [] \<Rightarrow> Inl KeyError
      | [k] \<Rightarrow> Inr k
      | _ \<Rightarrow> if sorted idx then Inl TypeError else Inl ValueError)"

record tally =
  bullish_success :: nat
  bearish_success :: nat
  valid_bullish :: nat
  valid_bearish :: nat
  pattern_details :: "outcome list"

text \<open>
  The body of the loop of \<^verbatim>\<open>calculate_success_probability\<close> for one pattern:
  \<^verbatim>\<open>continue\<close> returns the state unchanged. The division is numpy's (the two prices are
  numpy scalars), so it never raises.
\<close>

definition eval_flag :: "frame \<Rightarrow> real \<Rightarrow> nat \<Rightarrow> flag \<Rightarrow> tally \<Rightarrow> pyerror + tally" where
  "eval_flag data threshold days_after flag st =
     (let flag_end_date = flag_end flag
      in if flag_end_date \<notin> set (index data) then Inr st
         else
           (case get_loc (index data) flag_end_date of
              Inl e \<Rightarrow> Inl e
            | Inr flag_end_idx \<Rightarrow>
                if length data \<le> flag_end_idx + days_after then Inr st
                else
                  (let future_price = Fin (Close (data ! (flag_end_idx + days_after)))
                   in case scalar_at (index data) (column Close data) flag_end_date of
                        Inl e \<Rightarrow> Inl e
                      | Inr flag_end_price \<Rightarrow>
                          (let price_change =
                                 fdiv (fsub future_price flag_end_price) flag_end_price;
                               success =
                                 (if trend_direction flag = bullish
                                  then fge price_change (Fin threshold)
                                  else fle price_change (Fin (- threshold)));
                               row = \<lparr>Pattern_Start_Date = pole_start flag,
                                      Pole_End_Flag_Start_Date = date flag,
                                      Flag_End_Date = flag_end flag,
                                      Flag_Type = trend_direction flag,
                                      Price_Change_pct = fround2 (fmul price_change (Fin 100)),
                                      Success = success,
                                      Days_After = days_after,
                                      Threshold_pct = round2 (threshold * 100)\<rparr>
                           in Inr
                                (if trend_direction flag = bullish
                                 then st\<lparr>bullish_success :=
                                           (if success then bullish_success st + 1
                                            else bullish_success st),
                                         valid_bullish := valid_bullish st + 1,
                                         pattern_details := pattern_details st @ [row]\<rparr>
                                 else st\<lparr>bearish_success :=
                                           (if success then bearish_success st + 1
                                            else bearish_success st),
                                         valid_bearish := valid_bearish st + 1,
                                         pattern_details := pattern_details st @ [row]\<rparr>)))))"

fun eval_loop :: "frame \<Rightarrow> real \<Rightarrow> nat \<Rightarrow> flag list \<Rightarrow> tally \<Rightarrow> pyerror + tally" where
  "eval_loop data threshold days_after [] st = Inr st"
| "eval_loop data threshold days_after (flag # flags) st =
     (case eval_flag data threshold days_after flag st of
        Inl e \<Rightarrow> Inl e
      | Inr st' \<Rightarrow> eval_loop data threshold days_after flags st')"

definition success_rate :: "nat \<Rightarrow> nat \<Rightarrow> real" where
  "success_rate successes valid = (if 0 < valid then real successes / real valid else 0)"

text \<open>
  \<^verbatim>\<open>calculate_success_probability\<close>, with the analysis period \<^verbatim>\<open>days_after\<close> (read from a
  select box in the source) as a parameter. After the loop the source sums the column
  \<^verbatim>\<open>'Price Change (%)'\<close> of the table built from \<^verbatim>\<open>pattern_details\<close>; the table built
  from an empty list has no columns, so the column access raises KeyError. What follows
  is display only.
\<close>

definition calculate_success_probability ::
  "frame \<Rightarrow> flag list \<Rightarrow> real \<Rightarrow> nat \<Rightarrow> pyerror + real \<times> real \<times> outcome list" where
  "calculate_success_probability data flags threshold days_after =
     (if flags = [] then Inr (0, 0, [])
      else
        (case eval_loop data threshold days_after flags
                \<lparr>bullish_success = 0, bearish_success = 0, valid_bullish = 0,
                 valid_bearish = 0, pattern_details = []\<rparr> of
           Inl e \<Rightarrow> Inl e
         | Inr st \<Rightarrow>
             (let bullish_prob = success_rate (bullish_success st) (valid_bullish st);
                  bearish_prob = success_rate (bearish_success st) (valid_bearish st);
                  df_patterns = pattern_details st
              in if df_patterns = [] then Inl KeyError
                 else Inr (bullish_prob, bearish_prob, df_patterns))))"


subsection \<open>The evaluator as the specification words it\<close>

text \<open>
  A pattern has a forward observation when its flag end is a label of the series and the
  bar \<open>days_after\<close> positions after the bar of that label exists.
\<close>

definition flag_end_index :: "frame \<Rightarrow> flag \<Rightarrow> nat" where
  "flag_end_index data f = hd (positions (index data) (flag_end f))"

definition valid_flag :: "frame \<Rightarrow> nat \<Rightarrow> flag \<Rightarrow> bool" where
  "valid_flag data days_after f =
     (flag_end f \<in> set (index data) \<and> flag_end_index data f + days_after < length data)"

definition forward_change :: "frame \<Rightarrow> nat \<Rightarrow> flag \<Rightarrow> npfloat" where
  "forward_change data days_after f =
     (let k = flag_end_index data f
      in fdiv (fsub (Fin (Close (data ! (k + days_after)))) (Fin (Close (data ! k))))
           (Fin (Close (data ! k))))"

definition successful :: "frame \<Rightarrow> real \<Rightarrow> nat \<Rightarrow> flag \<Rightarrow> bool" where
  "successful data threshold days_after f =
     (if trend_direction f = bullish
      then fge (forward_change data days_after f) (Fin threshold)
      else fle (forward_change data days_after f) (Fin (- threshold)))"

definition outcome_row :: "frame \<Rightarrow> real \<Rightarrow> nat \<Rightarrow> flag \<Rightarrow> outcome" where
  "outcome_row data threshold days_after f =
     \<lparr>Pattern_Start_Date = pole_start f,
      Pole_End_Flag_Start_Date = date f,
      Flag_End_Date = flag_end f,
      Flag_Type = trend_direction f,
      Price_Change_pct = fround2 (fmul (forward_change data days_after f) (Fin 100)),
      Success = successful data threshold days_after f,
      Days_After = days_after,
      Threshold_pct = round2 (threshold * 100)\<rparr>"

subsection \<open>What the scanner reads of a bar\<close>

definition used_columns :: "bar \<Rightarrow> date \<times> real \<times> real \<times> real" where
  "used_columns b = (Date b, High b, Low b, Close b)"

section \<open>Example series\<close>

text \<open>Bars without intraday range: Open, High, Low and Close are the same price.\<close>

definition mk_bar :: "date \<Rightarrow> real \<Rightarrow> bar" where
  "mk_bar d c = \<lparr>Date = d, Open = c, High = c, Low = c, Close = c\<rparr>"

definition bars :: "date list \<Rightarrow> real list \<Rightarrow> frame" where
  "bars dates closes = map2 mk_bar dates closes"

text \<open>Fourteen bars: flat at 100, a fall to 90, then a slow rise.\<close>

definition falling_closes :: "real list" where
  "falling_closes = [100, 100, 100, 100, 100, 100, 100, 100, 100, 100, 90, 91, 92, 93]"

definition falling_series :: frame where
  "falling_series = bars [0, 1, 2, 3, 4, 5, 6, 7, 8, 9, 10, 11, 12, 13] falling_closes"

text \<open>The same prices under descending dates, and the same shape below zero.\<close>

definition descending_series :: frame where
  "descending_series = bars [13, 12, 11, 10, 9, 8, 7, 6, 5, 4, 3, 2, 1, 0] falling_closes"

definition negative_series :: frame where
  "negative_series =
     bars [0, 1, 2, 3, 4, 5, 6, 7, 8, 9, 10, 11, 12, 13]
       [-100, -100, -100, -100, -100, -100, -100, -100, -100, -100, -90, -89, -88, -87]"

text \<open>The falling series with a first Close of zero.\<close>

definition zero_close_series :: frame where
  "zero_close_series =
     bars [0, 1, 2, 3, 4, 5, 6, 7, 8, 9, 10, 11, 12, 13]
       [0, 100, 100, 100, 100, 100, 100, 100, 100, 100, 90, 91, 92, 93]"

text \<open>The falling series with another Open column.\<close>

definition falling_series_open :: frame where
  "falling_series_open = map (\<lambda>b. b\<lparr>Open := Close b + 1\<rparr>) falling_series"

text \<open>Fifty-one bars: flat at 100 for 47 bars, a step to 102, a last bar at 103.\<close>

definition rising_series :: frame where
  "rising_series =
     bars (map int [0..<51]) (replicate 47 100 @ [102, 102, 102, 103])"

definition descending_flag :: flag where
  "descending_flag =
     \<lparr>date = 3, pole_start = 13, flag_end = 1, pole_price_change = Fin (- 1 / 10),
      consolidation_range = Fin (1 / 90), trend_direction = bearish\<rparr>"

definition falling_flag :: flag where
  "falling_flag =
     \<lparr>date = 10, pole_start = 0, flag_end = 12, pole_price_change = Fin (- 1 / 10),
      consolidation_range = Fin (1 / 90), trend_direction = bearish\<rparr>"

definition rising_flag :: flag where
  "rising_flag =
     \<lparr>date = 47, pole_start = 37, flag_end = 49, pole_price_change = Fin (1 / 50),
      consolidation_range = Fin 0, trend_direction = bullish\<rparr>"


text \<open>
  Four patterns to evaluate on the rising series one bar ahead: the bullish one found
  there, a bearish one ending at bar 12, one whose flag end is no label of the series,
  and one ending at the last bar.
\<close>

definition mixed_flags :: "flag list" where
  "mixed_flags =
     [rising_flag, falling_flag, rising_flag\<lparr>flag_end := 77\<rparr>, rising_flag\<lparr>flag_end := 50\<rparr>]"

definition mixed_rows :: "outcome list" where
  "mixed_rows =
     [\<lparr>Pattern_Start_Date = 37, Pole_End_Flag_Start_Date = 47, Flag_End_Date = 49,
       Flag_Type = bullish, Price_Change_pct = Fin (49 / 50), Success = True,
       Days_After = 1, Threshold_pct = 1 / 100\<rparr>,
      \<lparr>Pattern_Start_Date = 0, Pole_End_Flag_Start_Date = 10, Flag_End_Date = 12,
       Flag_Type = bearish, Price_Change_pct = Fin 0, Success = False,
       Days_After = 1, Threshold_pct = 1 / 100\<rparr>]"

section \<open>Properties of the indicator library\<close>

lemma length_diff_from: "length (diff_from prev s) = length s"
  by (induction s arbitrary: prev) simp_all

lemma length_diff: "length (diff s) = length s"
  by (simp add: diff_def length_diff_from)

lemma length_rolling_mean: "length (rolling_mean w s) = length s"
  by (simp add: rolling_mean_def)

lemma length_gain: "length (gain s p) = length s"
  by (simp add: gain_def length_rolling_mean where_else0_def length_diff)

lemma length_loss: "length (loss s p) = length s"
  by (simp add: loss_def length_rolling_mean where_else0_def length_diff)

lemma length_compute_rsi: "length (compute_rsi s p) = length s"
  by (simp add: compute_rsi_def fillna0_def length_gain length_loss)

lemma rolling_mean_nth: "k < length s \<Longrightarrow> rolling_mean w s ! k = mean_at w s k"
  by (simp add: rolling_mean_def)

lemma length_window_at: "length (window_at w s k) \<le> Suc k"
  by (simp add: window_at_def)

lemma length_window_at_w: "length (window_at w s k) \<le> w"
  by (simp add: window_at_def)

lemma mean_at_short: "Suc k < w \<or> w = 0 \<Longrightarrow> mean_at w s k = NaN"
proof -
  assume a: "Suc k < w \<or> w = 0"
  define obs where "obs = filter is_finite (window_at w s k)"
  have "length obs \<le> length (window_at w s k)"
    unfolding obs_def by (rule length_filter_le)
  then have "length obs \<le> Suc k" and "length obs \<le> w"
    using length_window_at[of w s k] length_window_at_w[of w s k] by linarith+
  with a have "\<not> (w \<le> length obs \<and> 0 < length obs)" by linarith
  then show ?thesis unfolding mean_at_def Let_def obs_def by (rule if_not_P)
qed

lemma compute_rsi_nth:
  "k < length s \<Longrightarrow>
   compute_rsi s p ! k =
     (let r = rsi_of_rs (fdiv (gain s p ! k) (loss s p ! k)) in if r = NaN then Fin 0 else r)"
  by (simp add: compute_rsi_def fillna0_def length_gain length_loss Let_def)

lemma gain_short: "k < length s \<Longrightarrow> Suc k < p \<or> p = 0 \<Longrightarrow> gain s p ! k = NaN"
  by (simp add: gain_def rolling_mean_nth where_else0_def length_diff mean_at_short)

lemma rising_loss_49: "loss (column Close rising_series) 14 ! 49 = Fin 0"
  by code_simp

lemma rising_gain_49: "gain (column Close rising_series) 14 ! 49 = Fin (1 / 7)"
  by code_simp

text \<open>
  Claim C2, as the code has it. \<^verbatim>\<open>compute_rsi\<close> never returns NaN, and it returns 0
  wherever the window is not yet full (and everywhere for a period of 0) and wherever
  the average gain and the average loss are both zero. Where the average loss is zero
  and the average gain is positive the quotient is infinite, not NaN, and the value is
  100, not 0.
\<close>

theorem compute_rsi_values:
  assumes "k < length series"
  shows "compute_rsi series period ! k \<noteq> NaN
     \<and> (Suc k < period \<or> period = 0 \<longrightarrow> compute_rsi series period ! k = Fin 0)
     \<and> (loss series period ! k = Fin 0 \<and> gain series period ! k = Fin 0
          \<longrightarrow> compute_rsi series period ! k = Fin 0)
     \<and> (\<forall>g. loss series period ! k = Fin 0 \<and> gain series period ! k = Fin g \<and> 0 < g
          \<longrightarrow> compute_rsi series period ! k = Fin 100)"
proof (intro conjI allI impI)
  show "compute_rsi series period ! k \<noteq> NaN"
    using assms by (simp add: compute_rsi_nth Let_def)
next
  assume "Suc k < period \<or> period = 0"
  then have "gain series period ! k = NaN" using assms by (rule gain_short[rotated])
  then show "compute_rsi series period ! k = Fin 0"
    using assms by (simp add: compute_rsi_nth rsi_of_rs_def fsub_def)
next
  assume "loss series period ! k = Fin 0 \<and> gain series period ! k = Fin 0"
  then show "compute_rsi series period ! k = Fin 0"
    using assms by (simp add: compute_rsi_nth rsi_of_rs_def fsub_def)
next
  fix g
  assume "loss series period ! k = Fin 0 \<and> gain series period ! k = Fin g \<and> 0 < g"
  then show "compute_rsi series period ! k = Fin 100"
    using assms by (simp add: compute_rsi_nth rsi_of_rs_def fsub_def)
qed

theorem compute_rsi_values_witness:
  "49 < length (column Close rising_series)
   \<and> compute_rsi (column Close rising_series) 14 ! 49 = Fin 100"
proof -
  have len: "49 < length (column Close rising_series)" by code_simp
  have "loss (column Close rising_series) 14 ! 49 = Fin 0
        \<and> gain (column Close rising_series) 14 ! 49 = Fin (1 / 7) \<and> (0::real) < 1 / 7"
    using rising_loss_49 rising_gain_49 by simp
  with compute_rsi_values[OF len, of 14] len show ?thesis by blast
qed

text \<open>
  Claim C2 as stated fails: on the rising series, at position 49 with period 14, no
  close fell inside the window, the loss average is zero, and the value is not 0.
\<close>

theorem compute_rsi_zero_loss_counterexample:
  "loss (column Close rising_series) 14 ! 49 = Fin 0
   \<and> compute_rsi (column Close rising_series) 14 ! 49 \<noteq> Fin 0"
  by code_simp

section \<open>Properties of the pattern scanner\<close>

lemma set_positions: "set (positions idx d) = {k. k < length idx \<and> idx ! k = d}"
  by (auto simp: positions_def)



lemma distinct_set_single:
  assumes "distinct xs" "set xs = {k}"
  shows "xs = [k]"
proof (cases xs)
  case Nil
  with assms show ?thesis by simp
next
  case (Cons x ys)
  with assms have "x = k" by auto
  from Cons assms have "x \<notin> set ys" "set ys \<subseteq> {k}" by auto
  have "ys = []"
  proof (cases ys)
    case Nil
    then show ?thesis .
  next
    case (Cons y zs)
    then have "y \<in> set ys" by simp
    with \<open>set ys \<subseteq> {k}\<close> have "y = k" by auto
    with \<open>y \<in> set ys\<close> \<open>x \<notin> set ys\<close> \<open>x = k\<close> show ?thesis by simp
  qed
  with Cons \<open>x = k\<close> show ?thesis by simp
qed

lemma positions_distinct:
  assumes "distinct idx" "k < length idx"
  shows "positions idx (idx ! k) = [k]"
proof -
  have d: "distinct (positions idx (idx ! k))"
    by (simp add: positions_def)
  have "set (positions idx (idx ! k)) = {k}"
    using assms by (auto simp: set_positions nth_eq_iff_index_eq)
  with d show ?thesis by (rule distinct_set_single)
qed


lemma index_nth: "k < length data \<Longrightarrow> index data ! k = Date (data ! k)"
  by (simp add: index_def)

lemma length_index: "length (index data) = length data"
  by (simp add: index_def)




lemma py_truediv_Inr: "py_truediv a b = Inr v \<Longrightarrow> b \<noteq> Fin 0 \<and> v = fdiv a b"
  by (simp add: py_truediv_def split: if_splits)

lemma scan_step_Some:
  assumes "scan_step polyfit1 data pt ft cd i = Inr (Some f)"
  shows "date f = Date (data ! i)"
    and "pole_start f = Date (data ! (i - 10))"
    and "flag_end f = Date (data ! (i + cd))"
    and "take cd (drop i data) \<noteq> []"
    and "trend_direction f = bullish \<Longrightarrow>
           is_strong_flag data (flag_end f) = Inr True
           \<and> is_above_ma50 data (flag_end f) = Inr True"
proof -
  define pc where "pc = fdiv (fsub (Fin (Close (data ! i))) (Fin (Close (data ! (i - 10)))))
                          (Fin (Close (data ! (i - 10))))"
  define cp where "cp = take cd (drop i data)"
  define hi where "hi = col_max (map High cp)"
  define lo where "lo = col_min (map Low cp)"
  define pr where "pr = fdiv (fsub hi lo) lo"
  define td where "td = (if fgt pc (Fin 0) then bullish else bearish)"
  define nf where "nf = \<lparr>date = Date (data ! i), pole_start = Date (data ! (i - 10)),
                         flag_end = Date (data ! (i + cd)), pole_price_change = pc,
                         consolidation_range = pr, trend_direction = td\<rparr>"
  from assms have r: "flt pr (Fin ft)"
    unfolding scan_step_def Let_def pc_def cp_def hi_def lo_def pr_def
    by (auto split: sum.splits if_splits dest!: py_truediv_Inr)
  from assms have f: "f = nf"
    unfolding scan_step_def Let_def pc_def cp_def hi_def lo_def pr_def td_def nf_def
    by (auto split: sum.splits if_splits dest!: py_truediv_Inr)
  show "date f = Date (data ! i)" "pole_start f = Date (data ! (i - 10))"
       "flag_end f = Date (data ! (i + cd))"
    by (simp_all add: f nf_def)
  show "take cd (drop i data) \<noteq> []"
  proof
    assume "take cd (drop i data) = []"
    then have "cp = []" by (simp only: cp_def)
    then have "pr = NaN" by (simp add: pr_def hi_def lo_def fsub_def)
    with r show False by simp
  qed
  assume b: "trend_direction f = bullish"
  with assms f show "is_strong_flag data (flag_end f) = Inr True
           \<and> is_above_ma50 data (flag_end f) = Inr True"
    unfolding scan_step_def Let_def pc_def cp_def hi_def lo_def pr_def td_def nf_def
    by (auto split: sum.splits if_splits dest!: py_truediv_Inr)
qed


lemma scan_Inr:
  "scan polyfit1 data pt ft cd is acc = Inr out \<Longrightarrow>
   out = acc @ concat (map (emitted_at polyfit1 data pt ft cd) is)"
proof (induction "is" arbitrary: acc)
  case Nil
  then show ?case by simp
next
  case (Cons i "is")
  show ?case
  proof (cases "scan_step polyfit1 data pt ft cd i")
    case (Inl e)
    with Cons.prems show ?thesis by simp
  next
    case (Inr r)
    show ?thesis
    proof (cases r)
      case None
      with Inr Cons.prems have "scan polyfit1 data pt ft cd is acc = Inr out" by simp
      from Cons.IH[OF this] Inr None show ?thesis by (simp add: emitted_at_def)
    next
      case (Some f)
      with Inr Cons.prems have "scan polyfit1 data pt ft cd is (acc @ [f]) = Inr out" by simp
      from Cons.IH[OF this] Inr Some show ?thesis by (simp add: emitted_at_def)
    qed
  qed
qed

lemma set_scan_range:
  "set (scan_range data cd) = {i. 10 \<le> i \<and> i + cd + 2 \<le> length data}"
  by (auto simp: scan_range_def)

lemma detect_Inr:
  "detect_flag_patterns polyfit1 data pt ft cd = Inr flags \<Longrightarrow>
   flags = concat (map (emitted_at polyfit1 data pt ft cd) (scan_range data cd))"
  unfolding detect_flag_patterns_def by (drule scan_Inr) simp

lemma emitted_at_member:
  "f \<in> set (emitted_at polyfit1 data pt ft cd i) \<Longrightarrow>
   scan_step polyfit1 data pt ft cd i = Inr (Some f)"
  by (auto simp: emitted_at_def split: sum.splits option.splits)

lemma detect_member:
  assumes "detect_flag_patterns polyfit1 data pt ft cd = Inr flags" "f \<in> set flags"
  shows "\<exists>i. 10 \<le> i \<and> i + cd + 2 \<le> length data
           \<and> scan_step polyfit1 data pt ft cd i = Inr (Some f)"
proof -
  from detect_Inr[OF assms(1)] assms(2)
  obtain i where "i \<in> set (scan_range data cd)"
    and "f \<in> set (emitted_at polyfit1 data pt ft cd i)"
    by auto
  then show ?thesis
    using emitted_at_member set_scan_range[of data cd] by blast
qed

lemma scan_range_in_bounds:
  "i \<in> set (scan_range data cd) \<Longrightarrow> 10 \<le> i \<and> i < length data \<and> i + cd < length data"
  by (auto simp: scan_range_def)

text \<open>
  Claim C1, as the code has it. The loop visits the indices from 10 up to
  \<open>length data - consolidation_days - 2\<close> inclusive (the bound
  \<open>length data - consolidation_days - 1\<close> of \<^verbatim>\<open>range\<close> is excluded), written here without
  subtraction as \<open>i + cd + 2 \<le> length data\<close>. The patterns returned are those of the
  visited indices, in scan order, so a pattern is anchored at a bar that is neither among
  the first 10 nor among the last \<open>consolidation_days + 1\<close>.
\<close>

theorem scan_range_anchors:
  "set (scan_range data cd) = {i. 10 \<le> i \<and> i + cd + 2 \<le> length data}
   \<and> (detect_flag_patterns polyfit1 data pt ft cd = Inr flags \<longrightarrow>
        flags = concat (map (emitted_at polyfit1 data pt ft cd) [10..<length data - cd - 1])
        \<and> (\<forall>f \<in> set flags. \<exists>i. 10 \<le> i \<and> i + cd + 2 \<le> length data
               \<and> date f = index data ! i))"
proof (intro conjI impI ballI)
  show "set (scan_range data cd) = {i. 10 \<le> i \<and> i + cd + 2 \<le> length data}"
    by (rule set_scan_range)
next
  assume "detect_flag_patterns polyfit1 data pt ft cd = Inr flags"
  from detect_Inr[OF this]
  show "flags = concat (map (emitted_at polyfit1 data pt ft cd) [10..<length data - cd - 1])"
    by (simp add: scan_range_def)
next
  fix f
  assume d: "detect_flag_patterns polyfit1 data pt ft cd = Inr flags" and f: "f \<in> set flags"
  from detect_member[OF d f] obtain i where
    i: "10 \<le> i" "i + cd + 2 \<le> length data"
       "scan_step polyfit1 data pt ft cd i = Inr (Some f)"
    by blast
  from i(2) have "i < length data" by simp
  with scan_step_Some(1)[OF i(3)] have "date f = index data ! i" by (simp add: index_nth)
  with i show "\<exists>i. 10 \<le> i \<and> i + cd + 2 \<le> length data \<and> date f = index data ! i" by blast
qed

lemma detect_falling:
  "detect_flag_patterns lsq_slope falling_series 0.015 0.025 2 = Inr [falling_flag]"
  by code_simp


theorem scan_range_anchors_witness:
  "detect_flag_patterns lsq_slope falling_series 0.015 0.025 2 = Inr [falling_flag]
   \<and> (\<exists>i. 10 \<le> i \<and> i + 2 + 2 \<le> length falling_series
         \<and> date falling_flag = index falling_series ! i)"
  using scan_range_anchors[of falling_series 2 lsq_slope "0.015" "0.025" "[falling_flag]"]
    detect_falling
  by simp

text \<open>
  Claim C1 as stated fails: with 14 bars and 2 consolidation days the index
  \<open>14 - 2 - 1 = 11\<close> is not visited, although the loop body run at 11 stays inside the
  series and finds a pattern there; the scanner returns the pattern of index 10 alone.
\<close>

theorem scan_upper_bound_counterexample:
  "length falling_series - 2 - 1 = 11
   \<and> 11 \<notin> set (scan_range falling_series 2)
   \<and> scan_step lsq_slope falling_series 0.015 0.025 2 11 =
       Inr (Some \<lparr>date = 11, pole_start = 1, flag_end = 13,
                  pole_price_change = Fin (- 9 / 100), consolidation_range = Fin (1 / 91),
                  trend_direction = bearish\<rparr>)
   \<and> detect_flag_patterns lsq_slope falling_series 0.015 0.025 2 = Inr [falling_flag]"
  by code_simp

text \<open>
  Claim C4: on a series with strictly ascending dates every pattern returned has its
  pole start exactly 10 bars before its anchor and its flag end exactly
  \<open>consolidation_days\<close> bars after it, the three dates are strictly ascending, and all
  lie between the first and the last date of the series.
\<close>

theorem pattern_dates_ordered:
  assumes "sorted_wrt (<) (index data)"
    and "detect_flag_patterns polyfit1 data pt ft cd = Inr flags"
    and "f \<in> set flags"
  shows "\<exists>i. 10 \<le> i \<and> 0 < cd \<and> i + cd < length data
           \<and> pole_start f = index data ! (i - 10)
           \<and> date f = index data ! i
           \<and> flag_end f = index data ! (i + cd)
           \<and> pole_start f < date f \<and> date f < flag_end f
           \<and> hd (index data) \<le> pole_start f \<and> flag_end f \<le> last (index data)"
proof -
  from detect_member[OF assms(2,3)] obtain i where
    i: "10 \<le> i" "i + cd + 2 \<le> length data"
       "scan_step polyfit1 data pt ft cd i = Inr (Some f)"
    by blast
  let ?idx = "index data"
  have len: "length ?idx = length data" by (rule length_index)
  from scan_step_Some(4)[OF i(3)] have cd: "0 < cd" by (cases cd) simp_all
  from i(2) have b: "i - 10 < length data" "i < length data" "i + cd < length data" by simp_all
  have ps: "pole_start f = ?idx ! (i - 10)"
    using scan_step_Some(2)[OF i(3)] b by (simp add: index_nth)
  have dt: "date f = ?idx ! i"
    using scan_step_Some(1)[OF i(3)] b by (simp add: index_nth)
  have fe: "flag_end f = ?idx ! (i + cd)"
    using scan_step_Some(3)[OF i(3)] b by (simp add: index_nth)
  have lt: "\<And>a b. a < b \<Longrightarrow> b < length data \<Longrightarrow> ?idx ! a < ?idx ! b"
    using sorted_wrt_nth_less[OF assms(1)] len by simp
  have le: "\<And>a b. a \<le> b \<Longrightarrow> b < length data \<Longrightarrow> ?idx ! a \<le> ?idx ! b"
    using lt by (metis le_neq_implies_less less_imp_le order_refl)
  have ne: "?idx \<noteq> []" using b len by auto
  have 1: "pole_start f < date f" unfolding ps dt using i(1) b by (intro lt) simp_all
  have 2: "date f < flag_end f" unfolding dt fe using cd b by (intro lt) simp_all
  have 3: "hd ?idx \<le> pole_start f"
    unfolding ps hd_conv_nth[OF ne] using b by (intro le) simp_all
  have 4: "flag_end f \<le> last ?idx"
    unfolding fe last_conv_nth[OF ne] len using b by (intro le) simp_all
  from i(1) cd b(3) ps dt fe 1 2 3 4 show ?thesis by blast
qed

lemma falling_sorted: "sorted_wrt (<) (index falling_series)"
  by code_simp

theorem pattern_dates_ordered_witness:
  "sorted_wrt (<) (index falling_series)
   \<and> detect_flag_patterns lsq_slope falling_series 0.015 0.025 2 = Inr [falling_flag]
   \<and> pole_start falling_flag < date falling_flag
   \<and> date falling_flag < flag_end falling_flag"
proof -
  have "falling_flag \<in> set [falling_flag]" by simp
  from pattern_dates_ordered[OF falling_sorted detect_falling this]
  have "pole_start falling_flag < date falling_flag \<and> date falling_flag < flag_end falling_flag"
    by blast
  with falling_sorted detect_falling show ?thesis by simp
qed










lemma fold_min_mem: "fold min xs (x::real) \<in> set (x # xs)"
proof (induction xs arbitrary: x)
  case Nil
  then show ?case by simp
next
  case (Cons y ys)
  have m: "min y x = x \<or> min y x = y" by (simp add: min_def)
  have "fold min ys (min y x) \<in> set (min y x # ys)" by (rule Cons.IH)
  then have "fold min ys (min y x) = min y x \<or> fold min ys (min y x) \<in> set ys" by simp
  with m have "fold min ys (min y x) \<in> set (x # y # ys)" by auto
  then show ?case by simp
qed

lemma col_min_nonzero: "\<forall>v \<in> set xs. v \<noteq> 0 \<Longrightarrow> col_min xs \<noteq> Fin 0"
proof (cases xs)
  case Nil
  then show ?thesis by simp
next
  case (Cons x ys)
  assume a: "\<forall>v \<in> set xs. v \<noteq> 0"
  from fold_min_mem[of ys x] Cons have "fold min ys x \<in> set xs" by simp
  with a have "fold min ys x \<noteq> 0" by blast
  with Cons show ?thesis by simp
qed

lemma scalar_at_distinct:
  assumes "distinct idx" "k < length idx"
  shows "scalar_at idx vals (idx ! k) = Inr (vals ! k)"
  by (simp add: scalar_at_def loc_def positions_distinct[OF assms])

lemma is_strong_flag_Inr:
  assumes "distinct (index data)" "k < length data"
  shows "\<exists>b. is_strong_flag data (index data ! k) = Inr b"
proof -
  from assms(2) have kl: "k < length (index data)" by (simp add: length_index)
  show ?thesis
    by (simp add: is_strong_flag_def Let_def scalar_at_distinct[OF assms(1) kl] nth_mem[OF kl])
qed

lemma is_above_ma50_Inr:
  assumes "distinct (index data)" "k < length data"
  shows "\<exists>b. is_above_ma50 data (index data ! k) = Inr b"
proof -
  from assms(2) have kl: "k < length (index data)" by (simp add: length_index)
  show ?thesis
    by (simp add: is_above_ma50_def Let_def scalar_at_distinct[OF assms(1) kl] nth_mem[OF kl])
qed

lemma lsq_slope_two: "2 \<le> length ys \<Longrightarrow> \<exists>s. lsq_slope ys = Inr s"
  by (simp add: lsq_slope_def Let_def)

lemma scan_step_Inr:
  assumes d: "distinct (index data)"
    and nz: "\<forall>b \<in> set data. Close b \<noteq> 0 \<and> Low b \<noteq> 0"
    and pf: "\<forall>ys. 2 \<le> length ys \<and> (\<forall>v \<in> set ys. is_finite v) \<longrightarrow> (\<exists>s. polyfit1 ys = Inr s)"
    and cd: "cd \<noteq> 1"
    and i: "10 \<le> i" "i + cd < length data"
  shows "\<exists>r. scan_step polyfit1 data pt ft cd i = Inr r"
proof -
  define cp where "cp = take cd (drop i data)"
  from i have "i - 10 < length data" by simp
  then have "data ! (i - 10) \<in> set data" by (rule nth_mem)
  with nz have pc: "Close (data ! (i - 10)) \<noteq> 0" by simp
  show ?thesis
  proof (cases "cd = 0")
    case True
    then have e: "cp = []" by (simp add: cp_def)
    show ?thesis
      unfolding scan_step_def Let_def cp_def[symmetric]
      by (simp add: py_truediv_def pc e fsub_def)
  next
    case False
    with cd have c2: "2 \<le> cd" by simp
    have "set cp \<subseteq> set data"
      unfolding cp_def by (meson set_take_subset set_drop_subset subset_trans)
    with nz have "\<forall>v \<in> set (map Low cp). v \<noteq> 0" by auto
    then have lo: "col_min (map Low cp) \<noteq> Fin 0" by (rule col_min_nonzero)
    from i(2) have "length cp = cd" by (simp add: cp_def)
    with c2 have "2 \<le> length (column Close cp)" by (simp add: column_def)
    moreover have "\<forall>v \<in> set (column Close cp). is_finite v" by (auto simp: column_def)
    ultimately obtain s where s: "polyfit1 (column Close cp) = Inr s" using pf by blast
    from i have fe: "Date (data ! (i + cd)) = index data ! (i + cd)" by (simp add: index_nth)
    from is_strong_flag_Inr[OF d i(2)] obtain b1 where
      b1: "is_strong_flag data (Date (data ! (i + cd))) = Inr b1" unfolding fe by blast
    from is_above_ma50_Inr[OF d i(2)] obtain b2 where
      b2: "is_above_ma50 data (Date (data ! (i + cd))) = Inr b2" unfolding fe by blast
    show ?thesis
      unfolding scan_step_def Let_def cp_def[symmetric]
      by (simp add: py_truediv_def pc lo s b1 b2)
  qed
qed

lemma scan_all_Inr:
  "\<forall>i \<in> set is. \<exists>r. scan_step polyfit1 data pt ft cd i = Inr r \<Longrightarrow>
   \<exists>out. scan polyfit1 data pt ft cd is acc = Inr out"
proof (induction "is" arbitrary: acc)
  case Nil
  then show ?case by simp
next
  case (Cons i "is")
  from Cons.prems obtain r where r: "scan_step polyfit1 data pt ft cd i = Inr r" by auto
  from Cons.prems have rest: "\<forall>i \<in> set is. \<exists>r. scan_step polyfit1 data pt ft cd i = Inr r"
    by simp
  show ?case
  proof (cases r)
    case None
    with r Cons.IH[OF rest, of acc] show ?thesis by simp
  next
    case (Some f)
    with r Cons.IH[OF rest, of "acc @ [f]"] show ?thesis by simp
  qed
qed

lemma scan_Inr_steps:
  "scan polyfit1 data pt ft cd is acc = Inr out \<Longrightarrow> i \<in> set is \<Longrightarrow>
   \<exists>r. scan_step polyfit1 data pt ft cd i = Inr r"
proof (induction "is" arbitrary: acc)
  case Nil
  then show ?case by simp
next
  case (Cons j js)
  from Cons.prems(1) obtain r where r: "scan_step polyfit1 data pt ft cd j = Inr r"
    by (cases "scan_step polyfit1 data pt ft cd j") simp_all
  show ?case
  proof (cases "i = j")
    case True
    with r show ?thesis by blast
  next
    case False
    with Cons.prems(2) have m: "i \<in> set js" by simp
    show ?thesis
    proof (cases r)
      case None
      with r Cons.prems(1) have "scan polyfit1 data pt ft cd js acc = Inr out" by simp
      from Cons.IH[OF this m] show ?thesis .
    next
      case (Some f)
      with r Cons.prems(1) have "scan polyfit1 data pt ft cd js (acc @ [f]) = Inr out" by simp
      from Cons.IH[OF this m] show ?thesis .
    qed
  qed
qed

lemma scan_step_zero_close:
  "Close (data ! (i - 10)) = 0 \<Longrightarrow> scan_step polyfit1 data pt ft cd i = Inl ZeroDivisionError"
  by (simp add: scan_step_def Let_def py_truediv_def)

lemma detect_zero_close:
  assumes "10 \<le> i" "i + cd + 2 \<le> length data" "Close (data ! (i - 10)) = 0"
  shows "\<exists>e. detect_flag_patterns polyfit1 data pt ft cd = Inl e"
proof (cases "detect_flag_patterns polyfit1 data pt ft cd")
  case (Inl e)
  then show ?thesis by blast
next
  case (Inr out)
  from assms(1,2) have "i \<in> set (scan_range data cd)" by (simp add: set_scan_range)
  from scan_Inr_steps[OF Inr[unfolded detect_flag_patterns_def] this]
  show ?thesis by (simp add: scan_step_zero_close[OF assms(3)])
qed

lemma eval_flag_distinct:
  assumes "distinct (index data)"
  shows "\<exists>st'. eval_flag data thr h f st = Inr st'"
proof (cases "flag_end f \<in> set (index data)")
  case False
  then show ?thesis by (simp add: eval_flag_def Let_def)
next
  case True
  then obtain k where k: "k < length (index data)" "index data ! k = flag_end f"
    by (auto simp: in_set_conv_nth)
  from positions_distinct[OF assms k(1)] k(2)
  have p: "positions (index data) (flag_end f) = [k]" by simp
  then have g: "get_loc (index data) (flag_end f) = Inr k" by (simp add: get_loc_def)
  from p have sc: "scalar_at (index data) (column Close data) (flag_end f)
                     = Inr (column Close data ! k)"
    by (simp add: scalar_at_def loc_def)
  show ?thesis
    unfolding eval_flag_def Let_def by (simp add: True g sc)
qed

lemma eval_loop_distinct:
  assumes "distinct (index data)"
  shows "\<exists>st'. eval_loop data thr h flags st = Inr st'"
proof (induction flags arbitrary: st)
  case Nil
  show ?case by simp
next
  case (Cons f flags)
  from eval_flag_distinct[OF assms] obtain st1 where
    "eval_flag data thr h f st = Inr st1" by blast
  with Cons.IH[of st1] show ?case by simp
qed

lemma calculate_distinct:
  assumes "distinct (index data)" "calculate_success_probability data flags thr h = Inl err"
  shows "err = KeyError"
proof -
  let ?st0 = "\<lparr>bullish_success = 0, bearish_success = 0, valid_bullish = 0,
                 valid_bearish = 0, pattern_details = []\<rparr>"
  from eval_loop_distinct[OF assms(1)] obtain st where
    l: "eval_loop data thr h flags ?st0 = Inr st" by blast
  from assms(2) show ?thesis
    by (simp add: calculate_success_probability_def l Let_def split: if_splits)
qed

text \<open>
  Claim C8, as the code has it. Neither function checks its series. The scanner returns
  a pattern list on every series whose labels are distinct and whose Close and Low
  prices are not zero, whatever the order of the dates and the sign of the prices, for
  every window length other than 1, given a line fit that succeeds on two or more
  finite points (on a window of one bar the fit fails). A zero Close at the pole start
  of a visited index makes the scanner raise instead of returning. The evaluator, on a
  series with distinct labels, raises nothing but the KeyError of the case in which no
  pattern has a forward observation, whatever the dates and the prices.
\<close>

theorem no_input_validation:
  "(distinct (index data) \<and> (\<forall>b \<in> set data. Close b \<noteq> 0 \<and> Low b \<noteq> 0) \<and> cd \<noteq> 1
      \<and> (\<forall>ys. 2 \<le> length ys \<and> (\<forall>v \<in> set ys. is_finite v) \<longrightarrow> (\<exists>s. polyfit1 ys = Inr s))
     \<longrightarrow> (\<exists>flags. detect_flag_patterns polyfit1 data pt ft cd = Inr flags))
   \<and> (10 \<le> i \<and> i + cd + 2 \<le> length data \<and> Close (data ! (i - 10)) = 0
     \<longrightarrow> (\<exists>e. detect_flag_patterns polyfit1 data pt ft cd = Inl e))
   \<and> (distinct (index data) \<and> calculate_success_probability data flags thr h = Inl err
     \<longrightarrow> err = KeyError)"
proof (intro conjI impI)
  assume a: "distinct (index data) \<and> (\<forall>b \<in> set data. Close b \<noteq> 0 \<and> Low b \<noteq> 0) \<and> cd \<noteq> 1
      \<and> (\<forall>ys. 2 \<le> length ys \<and> (\<forall>v \<in> set ys. is_finite v) \<longrightarrow> (\<exists>s. polyfit1 ys = Inr s))"
  have "\<forall>i \<in> set (scan_range data cd). \<exists>r. scan_step polyfit1 data pt ft cd i = Inr r"
  proof
    fix j assume "j \<in> set (scan_range data cd)"
    then have j: "10 \<le> j" "j + cd < length data" using scan_range_in_bounds by blast+
    from a have d: "distinct (index data)"
      and nz: "\<forall>b \<in> set data. Close b \<noteq> 0 \<and> Low b \<noteq> 0"
      and c: "cd \<noteq> 1"
      and pf: "\<forall>ys. 2 \<le> length ys \<and> (\<forall>v \<in> set ys. is_finite v) \<longrightarrow> (\<exists>s. polyfit1 ys = Inr s)"
      by blast+
    show "\<exists>r. scan_step polyfit1 data pt ft cd j = Inr r"
      by (rule scan_step_Inr[OF d nz pf c j])
  qed
  then show "\<exists>flags. detect_flag_patterns polyfit1 data pt ft cd = Inr flags"
    unfolding detect_flag_patterns_def by (rule scan_all_Inr)
next
  assume "10 \<le> i \<and> i + cd + 2 \<le> length data \<and> Close (data ! (i - 10)) = 0"
  then show "\<exists>e. detect_flag_patterns polyfit1 data pt ft cd = Inl e"
    using detect_zero_close by blast
next
  assume "distinct (index data) \<and> calculate_success_probability data flags thr h = Inl err"
  then show "err = KeyError" using calculate_distinct by blast
qed

lemma descending_distinct: "distinct (index descending_series)"
  by code_simp

lemma descending_nonzero: "\<forall>b \<in> set descending_series. Close b \<noteq> 0 \<and> Low b \<noteq> 0"
  by code_simp

lemma lsq_slope_fits:
  "\<forall>ys. 2 \<le> length ys \<and> (\<forall>v \<in> set ys. is_finite v) \<longrightarrow> (\<exists>s. lsq_slope ys = Inr s)"
  by (simp add: lsq_slope_def Let_def)

lemma zero_close_first: "Close (zero_close_series ! (10 - 10)) = 0"
  by code_simp

lemma zero_close_length: "10 + 2 + 2 \<le> length zero_close_series"
  by code_simp

theorem no_input_validation_witness:
  "distinct (index descending_series)
   \<and> (\<exists>flags. detect_flag_patterns lsq_slope descending_series 0.015 0.025 2 = Inr flags)
   \<and> (\<exists>e. detect_flag_patterns lsq_slope zero_close_series 0.015 0.025 2 = Inl e)"
proof -
  have n: "(2::nat) \<noteq> 1" by simp
  have 1: "\<exists>flags. detect_flag_patterns lsq_slope descending_series 0.015 0.025 2 = Inr flags"
    by (rule no_input_validation[THEN conjunct1, THEN mp,
          OF conjI[OF descending_distinct conjI[OF descending_nonzero conjI[OF n lsq_slope_fits]]]])
  have t: "(10::nat) \<le> 10" by simp
  have 2: "\<exists>e. detect_flag_patterns lsq_slope zero_close_series 0.015 0.025 2 = Inl e"
    by (rule no_input_validation[THEN conjunct2, THEN conjunct1, THEN mp,
          OF conjI[OF t conjI[OF zero_close_length zero_close_first]]])
  show ?thesis by (intro conjI descending_distinct 1 2)
qed

text \<open>
  Claim C8 as stated fails: a series with descending dates yields a pattern whose pole
  starts after its flag ends, and the evaluator computes an outcome for it; a series of
  negative prices yields a pattern with a negative consolidation range. Nothing raises
  an error.
\<close>

theorem malformed_series_accepted_counterexample:
  "index descending_series ! 0 = 13 \<and> index descending_series ! 1 = 12
   \<and> detect_flag_patterns lsq_slope descending_series 0.015 0.025 2 = Inr [descending_flag]
   \<and> calculate_success_probability descending_series [descending_flag] 0.0001 1 =
       Inr (0, 0,
            [\<lparr>Pattern_Start_Date = 13, Pole_End_Flag_Start_Date = 3, Flag_End_Date = 1,
              Flag_Type = bearish, Price_Change_pct = Fin (109 / 100), Success = False,
              Days_After = 1, Threshold_pct = 1 / 100\<rparr>])
   \<and> Close (negative_series ! 10) = - 90
   \<and> detect_flag_patterns lsq_slope negative_series 0.015 0.025 2 =
       Inr [\<lparr>date = 10, pole_start = 0, flag_end = 12, pole_price_change = Fin (- 1 / 10),
             consolidation_range = Fin (- 1 / 90), trend_direction = bearish\<rparr>]"
  by code_simp

lemma used_columns_maps:
  assumes "map used_columns data = map used_columns data'"
  shows "map Date data = map Date data'" and "map High data = map High data'"
    and "map Low data = map Low data'" and "map Close data = map Close data'"
    and "length data = length data'"
proof -
  have 1: "map (\<lambda>b. fst (used_columns b)) data = map (\<lambda>b. fst (used_columns b)) data'"
    using arg_cong[OF assms, of "map fst"] by (simp add: comp_def)
  have 2: "map (\<lambda>b. fst (snd (used_columns b))) data = map (\<lambda>b. fst (snd (used_columns b))) data'"
    using arg_cong[OF assms, of "map (\<lambda>p. fst (snd p))"] by (simp add: comp_def)
  have 3: "map (\<lambda>b. fst (snd (snd (used_columns b)))) data
         = map (\<lambda>b. fst (snd (snd (used_columns b)))) data'"
    using arg_cong[OF assms, of "map (\<lambda>p. fst (snd (snd p)))"] by (simp add: comp_def)
  have 4: "map (\<lambda>b. snd (snd (snd (used_columns b)))) data
         = map (\<lambda>b. snd (snd (snd (used_columns b)))) data'"
    using arg_cong[OF assms, of "map (\<lambda>p. snd (snd (snd p)))"] by (simp add: comp_def)
  from 1 show "map Date data = map Date data'" by (simp add: used_columns_def)
  from 2 show "map High data = map High data'" by (simp add: used_columns_def)
  from 3 show "map Low data = map Low data'" by (simp add: used_columns_def)
  from 4 show "map Close data = map Close data'" by (simp add: used_columns_def)
  from arg_cong[OF assms, of length] show "length data = length data'" by simp
qed

lemma column_as_map: "column c data = map Fin (map c data)"
  by (simp add: column_def)

lemma scan_step_agree:
  assumes a: "map used_columns data = map used_columns data'"
    and i: "10 \<le> i" "i + cd < length data"
  shows "scan_step polyfit1 data pt ft cd i = scan_step polyfit1 data' pt ft cd i"
proof -
  note u = used_columns_maps[OF a]
  from i u(5) have b: "i < length data" "i - 10 < length data" "i + cd < length data"
    "i < length data'" "i - 10 < length data'" "i + cd < length data'" by simp_all
  have idx: "index data = index data'" by (simp add: index_def u(1))
  have cc: "column Close data = column Close data'" by (simp add: column_as_map u(4))
  have nthC: "\<And>k. k < length data \<Longrightarrow> Close (data ! k) = Close (data' ! k)"
  proof -
    fix k assume k: "k < length data"
    then have "Close (data ! k) = map Close data ! k" by simp
    also have "\<dots> = map Close data' ! k" by (simp only: u(4))
    also have "\<dots> = Close (data' ! k)" using k u(5) by simp
    finally show "Close (data ! k) = Close (data' ! k)" .
  qed
  have nthD: "\<And>k. k < length data \<Longrightarrow> Date (data ! k) = Date (data' ! k)"
  proof -
    fix k assume k: "k < length data"
    then have "Date (data ! k) = map Date data ! k" by simp
    also have "\<dots> = map Date data' ! k" by (simp only: u(1))
    also have "\<dots> = Date (data' ! k)" using k u(5) by simp
    finally show "Date (data ! k) = Date (data' ! k)" .
  qed
  have hi: "map High (take cd (drop i data)) = map High (take cd (drop i data'))"
    by (simp only: take_map[symmetric] drop_map[symmetric] u(2))
  have lo: "map Low (take cd (drop i data)) = map Low (take cd (drop i data'))"
    by (simp only: take_map[symmetric] drop_map[symmetric] u(3))
  have cl: "column Close (take cd (drop i data)) = column Close (take cd (drop i data'))"
    unfolding column_as_map
    by (simp only: take_map[symmetric] drop_map[symmetric] u(4))
  have sf: "\<And>d. is_strong_flag data d = is_strong_flag data' d"
    unfolding is_strong_flag_def idx cc ..
  have am: "\<And>d. is_above_ma50 data d = is_above_ma50 data' d"
    unfolding is_above_ma50_def idx cc ..
  show ?thesis
    unfolding scan_step_def Let_def nthC[OF b(1)] nthC[OF b(2)] nthD[OF b(1)] nthD[OF b(2)]
      nthD[OF b(3)] hi lo cl sf am ..
qed

lemma scan_agree:
  assumes "map used_columns data = map used_columns data'"
    and "\<forall>i \<in> set is. 10 \<le> i \<and> i + cd < length data"
  shows "scan polyfit1 data pt ft cd is acc = scan polyfit1 data' pt ft cd is acc"
  using assms(2)
proof (induction "is" arbitrary: acc)
  case Nil
  show ?case by simp
next
  case (Cons i "is")
  from Cons.prems have "10 \<le> i" "i + cd < length data" by simp_all
  from scan_step_agree[OF assms(1) this]
  have s: "scan_step polyfit1 data pt ft cd i = scan_step polyfit1 data' pt ft cd i" .
  from Cons.prems have r: "\<forall>i \<in> set is. 10 \<le> i \<and> i + cd < length data" by simp
  show ?case unfolding scan.simps s Cons.IH[OF r] ..
qed

text \<open>
  Of a bar the scanner reads the label and the High, Low and Close prices, never the
  Open price: two series that agree on what is read give the same result, patterns or
  exception, for the same thresholds and window length.
\<close>

lemma detect_ignores_open:
  assumes "map used_columns data = map used_columns data'"
  shows "detect_flag_patterns polyfit1 data pt ft cd = detect_flag_patterns polyfit1 data' pt ft cd"
proof -
  have r: "scan_range data cd = scan_range data' cd"
    by (simp add: scan_range_def used_columns_maps(5)[OF assms])
  have "\<forall>i \<in> set (scan_range data cd). 10 \<le> i \<and> i + cd < length data"
    using scan_range_in_bounds by blast
  from scan_agree[OF assms this] show ?thesis
    by (simp add: detect_flag_patterns_def r)
qed

lemma falling_open_agree: "map used_columns falling_series_open = map used_columns falling_series"
  by code_simp

lemma falling_open_differs: "falling_series_open \<noteq> falling_series"
  by code_simp

lemma detect_ignores_open_example:
  "falling_series_open \<noteq> falling_series
   \<and> detect_flag_patterns lsq_slope falling_series_open 0.015 0.025 2 = Inr [falling_flag]"
  using detect_ignores_open[OF falling_open_agree, of lsq_slope "0.015" "0.025" 2]
    detect_falling falling_open_differs
  by simp

section \<open>Properties of the outcome evaluator\<close>

text \<open>
  Claim C7: on an empty pattern list \<^verbatim>\<open>calculate_success_probability\<close> returns the rates
  0.0 and 0.0 and an empty table, for every series, threshold and period, without
  entering the loop and without an exception.
\<close>

theorem calculate_empty:
  "calculate_success_probability data [] threshold days_after = Inr (0, 0, [])"
  by (simp add: calculate_success_probability_def)


lemma mixed_valid:
  "map (outcome_row rising_series 0.0001 1) (filter (valid_flag rising_series 1) mixed_flags) = mixed_rows"
  by code_simp

text \<open>
  Claim C5 on the code: a pattern without forward observation is skipped by
  \<^verbatim>\<open>continue\<close>, but when every pattern of a non-empty list is skipped the function does
  not return: the table built from no rows has no column \<^verbatim>\<open>'Price Change (%)'\<close> and the
  access to it raises KeyError. Here the only pattern ends at bar 12 of 14 and the period
  is 7.
\<close>

theorem all_patterns_dropped_raises:
  "valid_flag falling_series 7 falling_flag = False
   \<and> calculate_success_probability falling_series [falling_flag] 0.0001 7 = Inl KeyError"
  by code_simp





lemma not_bullish: "(t \<noteq> bullish) = (t = bearish)"
  by (cases t) simp_all




end
